theory Spec2Isabelle
  imports Main "HOL-Library.AList" "HOL-Library.Sublist"
begin

section \<open>Values, errors and the outside world\<close>

text \<open>
  The registry document is whatever \<^verbatim>\<open>json.load\<close> returns: nested dictionaries with
  string keys, lists, strings, numbers, booleans and \<^verbatim>\<open>None\<close>. A dictionary is an
  association list in insertion order (the order in which \<^verbatim>\<open>get_category\<close> scans the
  categories); a key is looked up with \<open>map_of\<close>, stored with \<open>AList.update\<close>
  (in place when the key is there, at the end when it is new) and removed with
  \<open>AList.delete\<close>. Numbers are integers.
\<close>

datatype json =
    JNull
  | JBool bool
  | JInt int
  | JStr string
  | JList "json list"
  | JDict "(string \<times> json) list"

datatype errno = ENOENT | EISDIR | ENOTDIR | EACCES

text \<open>
  The exceptions of the source as values. \<open>KeyError None\<close> is the failed lookup of the
  key \<^verbatim>\<open>None\<close> that \<^verbatim>\<open>get_category\<close> returns for an unknown name; \<open>Exception\<close> is
  the \<^verbatim>\<open>Exception(message)\<close> of \<^verbatim>\<open>get_dataset_data\<close>.
\<close>

datatype error =
    KeyError "string option"
  | TypeError
  | AttributeError
  | ValueError string
  | IOError errno
  | OSError errno
  | IndexError
  | Exception string

fun rbind :: "error + 'a \<Rightarrow> ('a \<Rightarrow> error + 'b) \<Rightarrow> error + 'b" where
  "rbind (Inl e) f = Inl e"
| "rbind (Inr x) f = f x"

subsection \<open>Dictionary operations of Python on a decoded value\<close>

text \<open>\<^verbatim>\<open>x[k]\<close>, where \<open>k\<close> is a string or \<^verbatim>\<open>None\<close>. Dictionary keys are strings, so
  \<^verbatim>\<open>None\<close> is never found; a value that is not a dictionary has no string index.\<close>

fun getitem :: "json \<Rightarrow> string option \<Rightarrow> error + json" where
  "getitem (JDict kvs) (Some k) =
     (case map_of kvs k of Some v \<Rightarrow> Inr v | None \<Rightarrow> Inl (KeyError (Some k)))"
| "getitem (JDict kvs) None = Inl (KeyError None)"
| "getitem _ _ = Inl TypeError"

text \<open>\<^verbatim>\<open>x.keys()\<close>.\<close>

fun py_keys :: "json \<Rightarrow> error + string list" where
  "py_keys (JDict kvs) = Inr (map fst kvs)"
| "py_keys _ = Inl AttributeError"

text \<open>\<^verbatim>\<open>x[k] = v\<close>.\<close>

fun setitem :: "json \<Rightarrow> string \<Rightarrow> json \<Rightarrow> error + json" where
  "setitem (JDict kvs) k v = Inr (JDict (AList.update k v kvs))"
| "setitem _ _ _ = Inl TypeError"

text \<open>\<^verbatim>\<open>x.pop(k)\<close>, keeping the dictionary that is left.\<close>

fun py_pop :: "json \<Rightarrow> string \<Rightarrow> error + json" where
  "py_pop (JDict kvs) k =
     (case map_of kvs k of
        Some v \<Rightarrow> Inr (JDict (AList.delete k kvs))
      | None \<Rightarrow> Inl (KeyError (Some k)))"
| "py_pop (JList xs) k = Inl TypeError"
| "py_pop _ _ = Inl AttributeError"

text \<open>\<^verbatim>\<open>k in x\<close> for a string \<open>k\<close>: key membership in a dictionary, substring in a
  string, element in a list.\<close>

fun py_contains :: "json \<Rightarrow> string \<Rightarrow> error + bool" where
  "py_contains (JDict kvs) k = Inr (map_of kvs k \<noteq> None)"
| "py_contains (JStr s) k = Inr (sublist k s)"
| "py_contains (JList xs) k = Inr (JStr k \<in> set xs)"
| "py_contains _ _ = Inl TypeError"

text \<open>
  \<^verbatim>\<open>x.update(y)\<close>: the entries of \<open>y\<close> are stored into \<open>x\<close> one after the other.
  The attribute \<^verbatim>\<open>update\<close> is looked up first, so a receiver that is not a dictionary
  fails with \<open>AttributeError\<close> whatever the argument is. An argument that is not a
  dictionary is reported as \<open>TypeError\<close> (Python also accepts a sequence of pairs there;
  \<^verbatim>\<open>update\<close> of the cache manager never reaches this call with one).
\<close>

fun dict_update :: "json \<Rightarrow> error + json \<Rightarrow> error + json" where
  "dict_update (JDict kvs) arg =
     rbind arg (\<lambda>y. case y of
        JDict new \<Rightarrow> Inr (JDict (fold (\<lambda>(k, v). AList.update k v) new kvs))
      | _ \<Rightarrow> Inl TypeError)"
| "dict_update _ arg = Inl AttributeError"

subsection \<open>Paths and the file system\<close>

text \<open>\<^verbatim>\<open>os.path.join\<close> of POSIX: an absolute component discards what precedes it.\<close>

definition startswith_sep :: "string \<Rightarrow> bool" where
  "startswith_sep b = (case b of [] \<Rightarrow> False | c # _ \<Rightarrow> c = CHR ''/'')"

definition endswith_sep :: "string \<Rightarrow> bool" where
  "endswith_sep a = (case rev a of [] \<Rightarrow> False | c # _ \<Rightarrow> c = CHR ''/'')"

definition path_join :: "string \<Rightarrow> string \<Rightarrow> string" where
  "path_join a b =
     (if startswith_sep b then b
      else if a = [] \<or> endswith_sep a then a @ b
      else a @ ''/'' @ b)"

definition path_join3 :: "string \<Rightarrow> string \<Rightarrow> string \<Rightarrow> string" where
  "path_join3 a b c = path_join (path_join a b) c"

text \<open>
  A path names a regular file with its text, a directory, or nothing. For a path that names
  nothing the operating system says why an access to it fails (\<open>missing\<close>): \<open>ENOENT\<close>
  when the name is simply not there, \<open>ENOTDIR\<close> when a directory of the path is a regular
  file, \<open>EACCES\<close> when a directory of the path may not be searched.
\<close>

datatype node = File string | Dir

record cache_manager =
  cache_dir :: string
  cache_fname :: string
  default_cache_dir :: string
  default_data_dir :: string
  data :: json

record world =
  self :: cache_manager
  disk :: "string \<Rightarrow> node option"
  missing :: "string \<Rightarrow> errno"

type_synonym 'a prog = "world \<Rightarrow> (error + 'a) \<times> world"

definition ret :: "'a \<Rightarrow> 'a prog" where
  "ret x = (\<lambda>w. (Inr x, w))"

definition throw :: "error \<Rightarrow> 'a prog" where
  "throw e = (\<lambda>w. (Inl e, w))"

definition lift :: "error + 'a \<Rightarrow> 'a prog" where
  "lift r = (\<lambda>w. (r, w))"

definition seq :: "'a prog \<Rightarrow> ('a \<Rightarrow> 'b prog) \<Rightarrow> 'b prog" where
  "seq m f = (\<lambda>w. case m w of (Inl e, w') \<Rightarrow> (Inl e, w') | (Inr x, w') \<Rightarrow> f x w')"

text \<open>\<^verbatim>\<open>try: m except: h\<close>; the handler re-raises what it does not handle.\<close>

definition attempt :: "'a prog \<Rightarrow> (error \<Rightarrow> 'a prog) \<Rightarrow> 'a prog" where
  "attempt m h = (\<lambda>w. case m w of (Inl e, w') \<Rightarrow> h e w' | (Inr x, w') \<Rightarrow> (Inr x, w'))"

definition attr :: "(cache_manager \<Rightarrow> 'a) \<Rightarrow> 'a prog" where
  "attr f = (\<lambda>w. (Inr (f (self w)), w))"

definition set_data :: "json \<Rightarrow> unit prog" where
  "set_data d = (\<lambda>w. (Inr (), w\<lparr>self := (self w)\<lparr>data := d\<rparr>\<rparr>))"

text \<open>
  \<^verbatim>\<open>os.path.exists\<close>, \<^verbatim>\<open>open(p, 'r').read()\<close>, \<^verbatim>\<open>open(p, 'w').write(s)\<close> and
  \<^verbatim>\<open>os.remove\<close>. Opening a directory fails; \<^verbatim>\<open>os.remove\<close> removes a regular file
  only; reading or removing a path that names nothing fails with the error that
  \<open>missing\<close> gives for it. Writing is modelled for a file whose directory is there and
  may be written, and for a text that the file's encoding accepts: then
  \<^verbatim>\<open>open(p, 'w')\<close> creates or replaces the file. What happens otherwise (a directory of
  the path is missing, or \<^verbatim>\<open>json.dump\<close> raises in the middle of the text and leaves a
  truncated file) is outside this development: the properties below that conclude a
  successful write are about a registry file that can be written.
\<close>

definition path_exists :: "string \<Rightarrow> bool prog" where
  "path_exists p = (\<lambda>w. (Inr (disk w p \<noteq> None), w))"

definition open_read :: "string \<Rightarrow> string prog" where
  "open_read p = (\<lambda>w. case disk w p of
       Some (File s) \<Rightarrow> (Inr s, w)
     | Some Dir \<Rightarrow> (Inl (IOError EISDIR), w)
     | None \<Rightarrow> (Inl (IOError (missing w p)), w))"

definition open_write :: "string \<Rightarrow> string \<Rightarrow> unit prog" where
  "open_write p s = (\<lambda>w. case disk w p of
       Some Dir \<Rightarrow> (Inl (IOError EISDIR), w)
     | _ \<Rightarrow> (Inr (), w\<lparr>disk := (disk w)(p \<mapsto> File s)\<rparr>))"

definition os_remove :: "json \<Rightarrow> unit prog" where
  "os_remove v = (case v of
       JStr p \<Rightarrow> (\<lambda>w. case disk w p of
           None \<Rightarrow> (Inl (OSError (missing w p)), w)
         | Some Dir \<Rightarrow> (Inl (OSError EISDIR), w)
         | Some (File s) \<Rightarrow> (Inr (), w\<lparr>disk := (disk w)(p := None)\<rparr>))
     | _ \<Rightarrow> throw TypeError)"

section \<open>The cache manager\<close>

text \<open>
  Every method of \<^verbatim>\<open>CacheManager\<close> is a program over the world: the manager object
  and the disk. An exception leaves the world as it was when it was raised. The JSON
  codec (\<^verbatim>\<open>json.load\<close>, \<^verbatim>\<open>json.dump\<close>) and the home directory
  (\<^verbatim>\<open>os.path.expanduser("~")\<close>) come from outside the repository and are parameters
  \<open>loads\<close>, \<open>dumps\<close> and \<open>home\<close>.
\<close>

definition setup_paths :: "string \<Rightarrow> unit prog" where
  "setup_paths home = (\<lambda>w. (Inr (), w\<lparr>self := (self w)\<lparr>
       cache_dir := home,
       cache_fname := path_join home ''.dbcollection.json'',
       default_cache_dir := path_join home ''dbcollection'',
       default_data_dir := path_join home ''dbcollection''\<rparr>\<rparr>))"

definition read_data_cache_file :: "(string \<Rightarrow> error + json) \<Rightarrow> json prog" where
  "read_data_cache_file loads =
     seq (attr cache_fname) (\<lambda>fn. seq (open_read fn) (\<lambda>s. lift (loads s)))"

definition empty_data :: "json prog" where
  "empty_data =
     seq (attr default_cache_dir) (\<lambda>c. seq (attr default_data_dir) (\<lambda>d.
       ret (JDict [(''info'', JDict [(''default_cache_dir'', JStr c),
                                     (''default_data_dir'', JStr d)]),
                   (''dataset'', JDict [])])))"

definition read_data_cache :: "(string \<Rightarrow> error + json) \<Rightarrow> json prog" where
  "read_data_cache loads =
     seq (attr cache_fname) (\<lambda>fn. seq (path_exists fn) (\<lambda>ex.
       if ex then read_data_cache_file loads else empty_data))"

text \<open>\<^verbatim>\<open>filename = fname or self.cache_fname\<close>: an absent or empty \<open>fname\<close> is the
  registry file.\<close>

definition write_data_cache :: "(json \<Rightarrow> string) \<Rightarrow> json \<Rightarrow> string option \<Rightarrow> unit prog" where
  "write_data_cache dumps d fname =
     seq (attr cache_fname) (\<lambda>cf.
       open_write (case fname of None \<Rightarrow> cf | Some f \<Rightarrow> if f = [] then cf else f) (dumps d))"

definition create_cache_file_disk :: "(json \<Rightarrow> string) \<Rightarrow> string option \<Rightarrow> unit prog" where
  "create_cache_file_disk dumps fname =
     seq empty_data (\<lambda>d. write_data_cache dumps d fname)"

definition init :: "(string \<Rightarrow> error + json) \<Rightarrow> (json \<Rightarrow> string) \<Rightarrow> string \<Rightarrow> unit prog" where
  "init loads dumps home =
     seq (setup_paths home) (\<lambda>_. seq (attr cache_fname) (\<lambda>fn. seq (path_exists fn) (\<lambda>ex.
       seq (if \<not> ex then create_cache_file_disk dumps (Some fn) else ret ()) (\<lambda>_.
       seq (read_data_cache loads) (\<lambda>d. set_data d)))))"

text \<open>The loop of \<^verbatim>\<open>get_category\<close> over the keys of \<^verbatim>\<open>self.data['dataset']\<close>.\<close>

fun category_loop :: "json \<Rightarrow> string \<Rightarrow> string list \<Rightarrow> error + string option" where
  "category_loop d name [] = Inr None"
| "category_loop d name (category # rest) =
     rbind (getitem d (Some ''dataset'')) (\<lambda>ds.
     rbind (getitem ds (Some category)) (\<lambda>dc.
     rbind (py_keys dc) (\<lambda>ns.
       if name \<in> set ns then Inr (Some category) else category_loop d name rest)))"

definition get_category :: "string \<Rightarrow> string option prog" where
  "get_category name =
     seq (attr data) (\<lambda>d. lift (
       rbind (getitem d (Some ''dataset'')) (\<lambda>ds.
       rbind (py_keys ds) (\<lambda>cs. category_loop d name cs))))"

text \<open>The expressions \<^verbatim>\<open>self.data['dataset'][self.get_category(name)]\<close> and
  \<^verbatim>\<open>self.data['dataset'][self.get_category(name)][name]\<close>, which the lookups
  share.\<close>

definition category_dict :: "string \<Rightarrow> json prog" where
  "category_dict name =
     seq (attr data) (\<lambda>d. seq (lift (getitem d (Some ''dataset''))) (\<lambda>ds.
     seq (get_category name) (\<lambda>c. lift (getitem ds c))))"

definition dataset_entry :: "string \<Rightarrow> json prog" where
  "dataset_entry name = seq (category_dict name) (\<lambda>dc. lift (getitem dc (Some name)))"

text \<open>A dictionary reached from \<^verbatim>\<open>self.data\<close> along a path of keys and changed in place:
  \<open>store path v d\<close> is the document with \<open>v\<close> at the end of the path.\<close>

fun store :: "string list \<Rightarrow> json \<Rightarrow> json \<Rightarrow> json" where
  "store [] v d = v"
| "store (k # ks) v (JDict kvs) =
     (case map_of kvs k of
        Some x \<Rightarrow> JDict (AList.update k (store ks v x) kvs)
      | None \<Rightarrow> JDict kvs)"
| "store (k # ks) v d = d"

definition except_KeyError :: "'a prog \<Rightarrow> 'a prog \<Rightarrow> 'a prog" where
  "except_KeyError m h = attempt m (\<lambda>e. case e of KeyError k \<Rightarrow> h | _ \<Rightarrow> throw e)"

text \<open>\<^verbatim>\<open>except OSError as err: if err.errno != errno.ENOENT: raise\<close>.\<close>

definition except_ENOENT :: "unit prog \<Rightarrow> unit prog" where
  "except_ENOENT m =
     attempt m (\<lambda>e. case e of OSError n \<Rightarrow> if n \<noteq> ENOENT then throw e else ret () | _ \<Rightarrow> throw e)"

definition delete_dataset_cache :: "(json \<Rightarrow> string) \<Rightarrow> string \<Rightarrow> unit prog" where
  "delete_dataset_cache dumps name =
     seq (dataset_entry name) (\<lambda>r. seq (lift (getitem r (Some ''cache_dir''))) (\<lambda>cache_dir_path.
     seq (except_ENOENT (os_remove cache_dir_path)) (\<lambda>_.
     seq (attr data) (\<lambda>d. seq (lift (getitem d (Some ''dataset''))) (\<lambda>ds.
     seq (get_category name) (\<lambda>c. seq (lift (getitem ds c)) (\<lambda>dc.
     seq (lift (py_pop dc name)) (\<lambda>dc'.
     seq (case c of Some category \<Rightarrow> set_data (store [''dataset'', category] dc' d)
                  | None \<Rightarrow> throw (KeyError None)) (\<lambda>_.
     seq (attr data) (\<lambda>d'. write_data_cache dumps d' None))))))))))"

definition get_data_from_field :: "string \<Rightarrow> string \<Rightarrow> json prog" where
  "get_data_from_field name field =
     seq (dataset_entry name) (\<lambda>r. lift (getitem r (Some field)))"

definition change_field :: "string \<Rightarrow> string \<Rightarrow> json \<Rightarrow> unit prog" where
  "change_field name field val =
     seq (attr data) (\<lambda>d. seq (lift (getitem d (Some ''dataset''))) (\<lambda>ds.
     seq (get_category name) (\<lambda>c. seq (lift (getitem ds c)) (\<lambda>dc.
     seq (lift (getitem dc (Some name))) (\<lambda>r.
     seq (lift (setitem r field val)) (\<lambda>r'.
       case c of Some category \<Rightarrow> set_data (store [''dataset'', category, name] r' d)
               | None \<Rightarrow> throw (KeyError None)))))))"

text \<open>
  \<^verbatim>\<open>add_data\<close>. In the branch of a dataset that is already there,
  \<^verbatim>\<open>cache_files.update(...)\<close> changes the old record's dictionary in place before
  \<^verbatim>\<open>new_info\<close> replaces the record.
\<close>

definition add_data :: "string \<Rightarrow> string \<Rightarrow> json \<Rightarrow> unit prog" where
  "add_data category name new_info =
     seq (attr data) (\<lambda>d. seq (lift (getitem d (Some ''dataset''))) (\<lambda>ds.
     seq (lift (py_keys ds)) (\<lambda>cs.
     seq (if category \<in> set cs then
            seq (lift (getitem ds (Some category))) (\<lambda>dc. seq (lift (py_keys dc)) (\<lambda>ns.
              if name \<in> set ns then
                seq (lift (getitem dc (Some name))) (\<lambda>old_info.
                seq (lift (getitem old_info (Some ''cached_files''))) (\<lambda>cache_files.
                seq (lift (dict_update cache_files (getitem new_info (Some ''cached_files''))))
                  (\<lambda>merged.
                seq (set_data (store [''dataset'', category, name, ''cached_files''] merged d))
                  (\<lambda>_.
                lift (setitem new_info ''cached_files'' merged)))))
              else ret new_info))
          else
            seq (lift (setitem ds category (JDict []))) (\<lambda>ds'.
            seq (set_data (store [''dataset''] ds' d)) (\<lambda>_. ret new_info)))
       (\<lambda>info.
     seq (attr data) (\<lambda>d1. seq (lift (getitem d1 (Some ''dataset''))) (\<lambda>ds1.
     seq (lift (getitem ds1 (Some category))) (\<lambda>dc1.
     seq (lift (setitem dc1 name info)) (\<lambda>dc2.
       set_data (store [''dataset'', category] dc2 d1)))))))))"

definition exists_dataset :: "string \<Rightarrow> bool prog" where
  "exists_dataset name =
     except_KeyError (seq (category_dict name) (\<lambda>dc. lift (py_contains dc name))) (ret False)"

definition exists :: "string \<Rightarrow> string \<Rightarrow> bool prog" where
  "exists name task =
     except_KeyError
       (seq (dataset_entry name) (\<lambda>r. seq (lift (getitem r (Some ''cache_files''))) (\<lambda>cf.
          lift (py_contains cf task))))
       (ret False)"

definition get_dataset_storage_paths :: "string \<Rightarrow> json prog" where
  "get_dataset_storage_paths name =
     seq (exists_dataset name) (\<lambda>ex.
       if ex then
         seq (get_data_from_field name ''cache_dir'') (\<lambda>c.
         seq (get_data_from_field name ''data_dir'') (\<lambda>d.
           ret (JDict [(''cache_dir'', c), (''data_dir'', d)])))
       else
         seq (attr default_cache_dir) (\<lambda>c. seq (attr default_data_dir) (\<lambda>d.
           ret (JDict [(''cache_dir'', JStr (path_join3 c name ''cache'')),
                       (''data_dir'', JStr (path_join3 d name ''data''))]))))"

definition delete_dataset :: "(json \<Rightarrow> string) \<Rightarrow> string \<Rightarrow> bool \<Rightarrow> unit prog" where
  "delete_dataset dumps name delete_data =
     seq (get_dataset_storage_paths name) (\<lambda>dset_paths.
     seq (delete_dataset_cache dumps name) (\<lambda>_.
       if delete_data then
         except_ENOENT (seq (lift (getitem dset_paths (Some ''data_dir''))) os_remove)
       else ret ()))"

definition get_dataset_data :: "string \<Rightarrow> json prog" where
  "get_dataset_data name =
     except_KeyError (dataset_entry name)
       (throw (Exception (''Dataset '' @ name @ '' does not exist in the cache file.'')))"

definition get_cache_path :: "string \<Rightarrow> string \<Rightarrow> json prog" where
  "get_cache_path name task =
     seq (get_dataset_data name) (\<lambda>cache_data.
     seq (lift (getitem cache_data (Some ''cache_files''))) (\<lambda>cf.
       lift (getitem cf (Some task))))"

definition update ::
  "(json \<Rightarrow> string) \<Rightarrow> string \<Rightarrow> string \<Rightarrow> json \<Rightarrow> json \<Rightarrow> json \<Rightarrow> unit prog" where
  "update dumps name category data_dir_v cache_dir_v cache_info =
     seq (add_data category name
            (JDict [(''data_dir'', data_dir_v), (''cache_dir'', cache_dir_v),
                    (''cache_files'', cache_info)])) (\<lambda>_.
     seq (attr data) (\<lambda>d. write_data_cache dumps d None))"

section \<open>The dataset loader\<close>

text \<open>
  The container is a tree of groups with arrays at the leaves; an array is a number or a
  list of arrays (its rows). \<^verbatim>\<open>h5py.File\<close>, the decoding of the field names
  (\<^verbatim>\<open>convert_ascii_to_str\<close>) and the selection of several rows at once come from outside
  the loader and are the parameters \<open>h5open\<close>, \<open>convert\<close> and \<open>fancy\<close>.
\<close>

datatype h5val = HInt int | HArr "h5val list"

datatype h5node = Group "(string \<times> h5node) list" | Dataset h5val

text \<open>\<^verbatim>\<open>p.split('/')\<close>.\<close>

fun split_acc :: "string \<Rightarrow> string \<Rightarrow> string list" where
  "split_acc cur [] = [cur]"
| "split_acc cur (c # cs) =
     (if c = CHR ''/'' then cur # split_acc [] cs else split_acc (cur @ [c]) cs)"

definition split_path :: "string \<Rightarrow> string list" where
  "split_path p = split_acc [] p"

fun h5_lookup :: "h5node \<Rightarrow> string list \<Rightarrow> h5node option" where
  "h5_lookup n [] = Some n"
| "h5_lookup (Group m) (s # ss) =
     (case map_of m s of Some n \<Rightarrow> h5_lookup n ss | None \<Rightarrow> None)"
| "h5_lookup (Dataset v) (s # ss) = None"

text \<open>\<^verbatim>\<open>file[path]\<close>: the object at a path of names separated by \<open>/\<close>.\<close>

definition h5_getitem :: "h5node \<Rightarrow> string \<Rightarrow> error + h5node" where
  "h5_getitem f path =
     (case h5_lookup f (filter (\<lambda>s. s \<noteq> []) (split_path path)) of
        Some n \<Rightarrow> Inr n
      | None \<Rightarrow> Inl (KeyError (Some path)))"

fun h5_keys :: "h5node \<Rightarrow> error + string list" where
  "h5_keys (Group m) = Inr (map fst m)"
| "h5_keys (Dataset v) = Inl AttributeError"

fun h5_value :: "h5node \<Rightarrow> error + h5val" where
  "h5_value (Dataset v) = Inr v"
| "h5_value (Group m) = Inl AttributeError"

text \<open>An array at an integer position; a negative position counts from the end.\<close>

fun index_int :: "h5val \<Rightarrow> int \<Rightarrow> error + h5val" where
  "index_int (HArr xs) i =
     (let n = int (length xs); j = (if i < 0 then i + n else i)
      in if 0 \<le> j \<and> j < n then Inr (xs ! nat j) else Inl IndexError)"
| "index_int (HInt v) i = Inl IndexError"

text \<open>\<^verbatim>\<open>dataset[k]\<close>, where \<open>k\<close> is a number read from another array or an array of
  positions.\<close>

fun dataset_getitem ::
  "(h5val \<Rightarrow> h5val \<Rightarrow> error + h5val) \<Rightarrow> h5node \<Rightarrow> h5val \<Rightarrow> error + h5val" where
  "dataset_getitem fancy (Dataset v) (HInt i) = index_int v i"
| "dataset_getitem fancy (Dataset v) (HArr ks) = fancy v (HArr ks)"
| "dataset_getitem fancy (Group m) k = Inl TypeError"

record dataset_loader =
  loader_name :: string
  loader_task :: string
  loader_data_dir :: string
  loader_cache_path :: string
  loader_file :: h5node
  root_path :: string
  sets :: "string list"
  object_fields :: "string list option"

text \<open>\<^verbatim>\<open>DatasetLoader.__init__\<close>. The attribute \<^verbatim>\<open>object_fields\<close> is assigned only under
  the test \<^verbatim>\<open>'train' in self.sets\<close>; \<open>None\<close> is the attribute that was never
  assigned.\<close>

definition loader_init ::
  "(string \<Rightarrow> error + h5node) \<Rightarrow> (h5val \<Rightarrow> error + string list) \<Rightarrow>
   string \<Rightarrow> string \<Rightarrow> string \<Rightarrow> string \<Rightarrow> error + dataset_loader" where
  "loader_init h5open convert name task ddir cpath =
     rbind (h5open cpath) (\<lambda>f.
     rbind (h5_keys f) (\<lambda>ks.
       let ld = \<lparr>loader_name = name, loader_task = task, loader_data_dir = ddir,
                 loader_cache_path = cpath, loader_file = f, root_path = ''default/'',
                 sets = ks, object_fields = None\<rparr>
       in if ''train'' \<in> set ks then
            rbind (h5_getitem f ''default/train/object_fields'') (\<lambda>n.
            rbind (h5_value n) (\<lambda>v.
            rbind (convert v) (\<lambda>field_names. Inr (ld\<lparr>object_fields := Some field_names\<rparr>))))
          else Inr ld))"

datatype index = IdxInt int | IdxList "int list"

text \<open>What \<^verbatim>\<open>object\<close> returns: the raw ids, one list of field values, or a list of
  such lists.\<close>

datatype object_result = Ids h5val | Tuple "h5val list" | Tuples "h5val list list"

text \<open>\<^verbatim>\<open>ids[i]\<close> for the position \<open>i\<close> that \<^verbatim>\<open>enumerate\<close> counts.\<close>

fun row_index :: "h5val \<Rightarrow> nat \<Rightarrow> error + h5val" where
  "row_index (HArr xs) i = (if i < length xs then Inr (xs ! i) else Inl IndexError)"
| "row_index (HInt v) i = Inl IndexError"

text \<open>The inner loop, \<^verbatim>\<open>for i, field_name in enumerate(fields)\<close>.\<close>

fun fields_loop ::
  "(h5val \<Rightarrow> h5val \<Rightarrow> error + h5val) \<Rightarrow> h5node \<Rightarrow> string \<Rightarrow> h5val \<Rightarrow> nat \<Rightarrow>
   string list \<Rightarrow> error + h5val list" where
  "fields_loop fancy f dir_path ids i [] = Inr []"
| "fields_loop fancy f dir_path ids i (field_name # rest) =
     rbind (h5_getitem f (dir_path @ field_name)) (\<lambda>ds.
     rbind (row_index ids i) (\<lambda>k.
     rbind (dataset_getitem fancy ds k) (\<lambda>v.
     rbind (fields_loop fancy f dir_path ids (Suc i) rest) (\<lambda>vs. Inr (v # vs)))))"

text \<open>The body of the outer loop: the ids at one index, then the value of every field.\<close>

definition object_row ::
  "(h5val \<Rightarrow> h5val \<Rightarrow> error + h5val) \<Rightarrow> h5node \<Rightarrow> string \<Rightarrow> string list \<Rightarrow> int \<Rightarrow>
   error + h5val list" where
  "object_row fancy f dir_path field_names i =
     rbind (h5_getitem f (dir_path @ ''object_ids'')) (\<lambda>ds.
     rbind (dataset_getitem fancy ds (HInt i)) (\<lambda>ids.
       fields_loop fancy f dir_path ids 0 field_names))"

text \<open>The outer loop, \<^verbatim>\<open>for idx_ in idx\<close>.\<close>

fun idx_loop ::
  "(h5val \<Rightarrow> h5val \<Rightarrow> error + h5val) \<Rightarrow> h5node \<Rightarrow> string \<Rightarrow> string list \<Rightarrow> int list \<Rightarrow>
   error + h5val list list" where
  "idx_loop fancy f dir_path field_names [] = Inr []"
| "idx_loop fancy f dir_path field_names (i # rest) =
     rbind (object_row fancy f dir_path field_names i) (\<lambda>row.
     rbind (idx_loop fancy f dir_path field_names rest) (\<lambda>out. Inr (row # out)))"

definition object ::
  "(h5val \<Rightarrow> h5val \<Rightarrow> error + h5val) \<Rightarrow> dataset_loader \<Rightarrow> string \<Rightarrow> index \<Rightarrow> bool \<Rightarrow>
   error + object_result" where
  "object fancy ld set_name idx is_value =
     (let dir_path = root_path ld @ set_name @ ''/'';
          field_path = dir_path @ ''object_ids''
      in if \<not> is_value then
           rbind (h5_getitem (loader_file ld) field_path) (\<lambda>ds.
           rbind (dataset_getitem fancy ds
                    (case idx of IdxInt i \<Rightarrow> HInt i | IdxList l \<Rightarrow> HArr (map HInt l)))
             (\<lambda>v. Inr (Ids v)))
         else
           let idxs = (case idx of IdxList l \<Rightarrow> l | IdxInt i \<Rightarrow> [i])
           in case object_fields ld of
                None \<Rightarrow> Inl AttributeError
              | Some field_names \<Rightarrow>
                  rbind (idx_loop fancy (loader_file ld) dir_path field_names idxs) (\<lambda>output.
                    if length idxs = 1 then
                      (case output of row # _ \<Rightarrow> Inr (Tuple row) | [] \<Rightarrow> Inl IndexError)
                    else Inr (Tuples output)))"

fun index_of :: "string list \<Rightarrow> string \<Rightarrow> nat option" where
  "index_of [] x = None"
| "index_of (y # ys) x = (if y = x then Some 0 else map_option Suc (index_of ys x))"

definition object_field_id :: "dataset_loader \<Rightarrow> string \<Rightarrow> error + nat" where
  "object_field_id ld field_name =
     (case object_fields ld of
        None \<Rightarrow> Inl AttributeError
      | Some field_names \<Rightarrow>
          (case index_of field_names field_name of
             Some i \<Rightarrow> Inr i
           | None \<Rightarrow> Inl (ValueError
               (''Field name '' @ [CHR 0x27] @ field_name @ [CHR 0x27] @ '' does not exist.''))))"

section \<open>The registry as the specification sees it\<close>

text \<open>
  The category dictionaries of a document, when it has the shape of a registry: a
  dictionary whose \<^verbatim>\<open>dataset\<close> entry is a dictionary.
\<close>

definition dataset_of :: "json \<Rightarrow> (string \<times> json) list option" where
  "dataset_of d =
     (case d of
        JDict kvs \<Rightarrow> (case map_of kvs ''dataset'' of Some (JDict cs) \<Rightarrow> Some cs | _ \<Rightarrow> None)
      | _ \<Rightarrow> None)"

fun entries :: "json \<Rightarrow> (string \<times> json) list" where
  "entries (JDict ns) = ns"
| "entries _ = []"

fun is_dict :: "json \<Rightarrow> bool" where
  "is_dict (JDict ns) = distinct (map fst ns)"
| "is_dict _ = False"

text \<open>A well-formed registry: every category is a dictionary, and no dictionary of
  categories or of datasets has a key twice.\<close>

definition wf_registry :: "json \<Rightarrow> bool" where
  "wf_registry d =
     (case dataset_of d of
        None \<Rightarrow> False
      | Some cs \<Rightarrow> distinct (map fst cs) \<and> list_all (\<lambda>cv. is_dict (snd cv)) cs)"

text \<open>The dataset names of all categories, in the order of the document; a name is
  registered when it is among them, and the names are unique when none occurs twice.\<close>

definition all_names :: "json \<Rightarrow> string list" where
  "all_names d =
     (case dataset_of d of
        None \<Rightarrow> []
      | Some cs \<Rightarrow> concat (map (\<lambda>cv. map fst (entries (snd cv))) cs))"

definition registered :: "json \<Rightarrow> string \<Rightarrow> bool" where
  "registered d name = (name \<in> set (all_names d))"


text \<open>The record of a dataset under a category.\<close>

definition record_in :: "json \<Rightarrow> string \<Rightarrow> string \<Rightarrow> json option" where
  "record_in d category name =
     (case dataset_of d of
        None \<Rightarrow> None
      | Some cs \<Rightarrow> (case map_of cs category of Some (JDict ns) \<Rightarrow> map_of ns name | _ \<Rightarrow> None))"

text \<open>What \<^verbatim>\<open>get_category\<close> returns, as a function of the document.\<close>

definition category_result :: "json \<Rightarrow> string \<Rightarrow> error + string option" where
  "category_result d name =
     rbind (getitem d (Some ''dataset'')) (\<lambda>ds.
     rbind (py_keys ds) (\<lambda>cs. category_loop d name cs))"

text \<open>The test of the scan: the category \<open>c\<close> has the name among its keys.\<close>

definition holds :: "(string \<times> json) list \<Rightarrow> string \<Rightarrow> string \<Rightarrow> bool" where
  "holds cs name c = (case map_of cs c of Some (JDict ns) \<Rightarrow> name \<in> fst ` set ns | _ \<Rightarrow> False)"




text \<open>A program that leaves every world as it is.\<close>

definition readonly :: "'a prog \<Rightarrow> bool" where
  "readonly m = (\<forall>w. snd (m w) = w)"

subsection \<open>Sample worlds\<close>

text \<open>
  A manager as \<^verbatim>\<open>setup_paths\<close> leaves it for the home directory \<open>/home/u\<close>, with an
  empty registry (\<open>world0\<close>), with one dataset (\<open>world1\<close>), with a record that carries
  the key \<^verbatim>\<open>cached_files\<close> (\<open>world_cached\<close>). The disk of these worlds has the home
  directory and nothing below it, and every other path is simply not there
  (\<open>ENOENT\<close>). \<open>sample_dumps\<close> writes a document as text; it stands for the encoder in
  the instances below.
\<close>

definition home_disk :: "string \<Rightarrow> node option" where
  "home_disk = [''/'' \<mapsto> Dir, ''/home'' \<mapsto> Dir, ''/home/u'' \<mapsto> Dir]"

definition sample_self :: cache_manager where
  "sample_self = \<lparr>cache_dir = ''/home/u'', cache_fname = ''/home/u/.dbcollection.json'',
     default_cache_dir = ''/home/u/dbcollection'', default_data_dir = ''/home/u/dbcollection'',
     data = JDict [(''info'', JDict [(''default_cache_dir'', JStr ''/home/u/dbcollection''),
                                     (''default_data_dir'', JStr ''/home/u/dbcollection'')]),
                   (''dataset'', JDict [])]\<rparr>"

definition mnist_record :: json where
  "mnist_record = JDict [(''data_dir'', JStr ''/d''), (''cache_dir'', JStr ''/c''),
                         (''cache_files'', JDict [(''train'', JStr ''/c/train.bin'')])]"

definition mnist_data :: json where
  "mnist_data = JDict [(''info'', JDict []),
                       (''dataset'', JDict [(''image'', JDict [(''mnist'', mnist_record)])])]"

definition world0 :: world where
  "world0 = \<lparr>self = sample_self, disk = home_disk, missing = (\<lambda>p. ENOENT)\<rparr>"

definition world1 :: world where
  "world1 = \<lparr>self = sample_self\<lparr>data := mnist_data\<rparr>, disk = home_disk, missing = (\<lambda>p. ENOENT)\<rparr>"

definition cached_record :: json where
  "cached_record = JDict [(''cached_files'', JDict [(''train'', JStr ''/c/train.bin''),
                                                    (''val'', JStr ''/c/val.bin'')])]"

definition world_cached :: world where
  "world_cached = \<lparr>self = sample_self\<lparr>data :=
      JDict [(''info'', JDict []),
             (''dataset'', JDict [(''image'', JDict [(''mnist'', cached_record)])])]\<rparr>,
     disk = home_disk, missing = (\<lambda>p. ENOENT)\<rparr>"

fun show_nat :: "nat \<Rightarrow> string" where
  "show_nat n = (if n < 10 then [char_of (48 + n)] else show_nat (n div 10) @ [char_of (48 + n mod 10)])"

declare show_nat.simps [simp del]

fun sample_dumps :: "json \<Rightarrow> string" where
  "sample_dumps JNull = ''null''"
| "sample_dumps (JBool b) = (if b then ''true'' else ''false'')"
| "sample_dumps (JInt i) = (if i < 0 then ''-'' @ show_nat (nat (- i)) else show_nat (nat i))"
| "sample_dumps (JStr s) = [CHR 0x22] @ s @ [CHR 0x22]"
| "sample_dumps (JList xs) = ''['' @ concat (map (\<lambda>x. sample_dumps x @ '','') xs) @ '']''"
| "sample_dumps (JDict kvs) =
     ''{'' @ concat (map (\<lambda>kv. [CHR 0x22] @ fst kv @ [CHR 0x22] @ '':'' @ sample_dumps (snd kv) @ '','') kvs) @ ''}''"

text \<open>The two calls of the example: the same dataset and category, a new task each.\<close>

definition first_update :: "unit prog" where
  "first_update = update sample_dumps ''m'' ''cat'' (JStr ''/d'') (JStr ''/c'')
     (JDict [(''train'', JStr ''/c/train.bin'')])"

definition second_update :: "unit prog" where
  "second_update = update sample_dumps ''m'' ''cat'' (JStr ''/d'') (JStr ''/c'')
     (JDict [(''test'', JStr ''/c/test.bin'')])"



text \<open>A container laid out as the loader reads it, \<open>default/train/<field>\<close>, with two
  objects of two fields each.\<close>

definition sample_container :: h5node where
  "sample_container =
     Group [(''default'', Group [(''train'', Group [
        (''object_fields'', Dataset (HArr [HArr [HInt 105, HInt 100], HArr [HInt 108, HInt 98]])),
        (''object_ids'', Dataset (HArr [HArr [HInt 0, HInt 1], HArr [HInt 1, HInt 0]])),
        (''id'', Dataset (HArr [HInt 10, HInt 11])),
        (''lb'', Dataset (HArr [HInt 7, HInt 3]))])])]"

definition sample_h5open :: "string \<Rightarrow> error + h5node" where
  "sample_h5open p = (if p = ''/c/train.h5'' then Inr sample_container else Inl (IOError ENOENT))"

definition sample_convert :: "h5val \<Rightarrow> error + string list" where
  "sample_convert v =
     (case v of
        HArr rows \<Rightarrow> Inr (map (\<lambda>r. case r of
            HArr cs \<Rightarrow> map (\<lambda>c. case c of HInt n \<Rightarrow> char_of n | _ \<Rightarrow> CHR ''?'') cs
          | HInt n \<Rightarrow> [char_of n]) rows)
      | HInt n \<Rightarrow> Inl TypeError)"

definition sample_fancy :: "h5val \<Rightarrow> h5val \<Rightarrow> error + h5val" where
  "sample_fancy v ks = Inl TypeError"

definition sample_loader :: dataset_loader where
  "sample_loader = \<lparr>loader_name = ''mnist'', loader_task = ''classification'',
     loader_data_dir = ''/d'', loader_cache_path = ''/c/train.h5'',
     loader_file = sample_container, root_path = ''default/'', sets = [''default''],
     object_fields = Some [''id'', ''lb'']\<rparr>"

section \<open>Basic facts\<close>

lemmas prog_defs = ret_def throw_def lift_def seq_def attempt_def attr_def set_data_def
  path_exists_def open_read_def open_write_def except_KeyError_def except_ENOENT_def

lemma rbind_case: "rbind r f = (case r of Inl e \<Rightarrow> Inl e | Inr x \<Rightarrow> f x)"
  by (cases r) auto

lemma seq_lift: "seq (lift r) f w = (case r of Inl e \<Rightarrow> (Inl e, w) | Inr x \<Rightarrow> f x w)"
  by (simp add: seq_def lift_def split: sum.splits)

lemma seq_attr: "seq (attr g) f w = f (g (self w)) w"
  by (simp add: seq_def attr_def)

lemma seq_ret: "seq (ret x) f w = f x w"
  by (simp add: seq_def ret_def)

lemma seq_set_data: "seq (set_data d) f w = f () (w\<lparr>self := (self w)\<lparr>data := d\<rparr>\<rparr>)"
  by (simp add: seq_def set_data_def)

lemma seq_throw: "seq (throw e) f w = (Inl e, w)"
  by (simp add: seq_def throw_def)

lemma seq_assoc: "seq (seq m f) g = seq m (\<lambda>x. seq (f x) g)"
  by (auto simp: seq_def fun_eq_iff split: prod.splits sum.splits)

lemma seq_if: "seq (if b then m1 else m2) f = (if b then seq m1 f else seq m2 f)"
  by simp

lemma set_data_apply: "set_data d w = (Inr (), w\<lparr>self := (self w)\<lparr>data := d\<rparr>\<rparr>)"
  by (simp add: set_data_def)

lemma lift_apply: "lift r w = (r, w)"
  by (simp add: lift_def)

lemma ret_apply: "ret x w = (Inr x, w)"
  by (simp add: ret_def)

lemma throw_apply: "throw e w = (Inl e, w)"
  by (simp add: throw_def)

lemma attr_apply: "attr g w = (Inr (g (self w)), w)"
  by (simp add: attr_def)

lemmas step = seq_assoc seq_if seq_lift seq_attr seq_ret seq_set_data seq_throw
  set_data_apply lift_apply ret_apply throw_apply attr_apply

lemma open_write_apply:
  "open_write p s w = (case disk w p of Some Dir \<Rightarrow> (Inl (IOError EISDIR), w)
     | _ \<Rightarrow> (Inr (), w\<lparr>disk := (disk w)(p \<mapsto> File s)\<rparr>))"
  by (simp add: open_write_def)

lemma write_data_cache_apply:
  "write_data_cache dumps d None w = open_write (cache_fname (self w)) (dumps d) w"
  by (simp add: write_data_cache_def step)

subsection \<open>Dictionaries\<close>

lemma getitem_store_head:
  "getitem d (Some k) = Inr x \<Longrightarrow> getitem (store (k # ks) v d) (Some k) = Inr (store ks v x)"
  by (cases d) (auto simp: update_conv' split: option.splits)

lemma getitem_Inr_dict: "getitem x k = Inr y \<Longrightarrow> \<exists>kvs. x = JDict kvs"
  by (cases x) auto

lemma py_keys_Inr_dict: "py_keys x = Inr ks \<Longrightarrow> \<exists>kvs. x = JDict kvs \<and> ks = map fst kvs"
  by (cases x) auto

lemma dict_update_Inr: "dict_update c arg = Inr m \<Longrightarrow> \<exists>y. arg = Inr y"
  by (cases c; cases arg) auto






text \<open>\<^verbatim>\<open>x.update(y)\<close> is the union of both dictionaries, with the entries of \<open>y\<close> winning.\<close>

lemma map_of_fold_update:
  "distinct (map fst new) \<Longrightarrow>
     map_of (fold (\<lambda>(k, v). AList.update k v) new old) = map_of old ++ map_of new"
proof (induction new arbitrary: old)
  case Nil
  show ?case by simp
next
  case (Cons kv new)
  obtain k v where kv: "kv = (k, v)" by (cases kv)
  from Cons.prems kv have d: "distinct (map fst new)" and n: "map_of new k = None"
    by (auto simp: map_of_eq_None_iff)
  have "map_of (fold (\<lambda>(k, v). AList.update k v) new (AList.update k v old)) =
          map_of (AList.update k v old) ++ map_of new"
    by (rule Cons.IH[OF d])
  then show ?case using n
    by (auto simp add: kv update_conv' fun_eq_iff map_add_def split: option.splits)
qed

lemma dict_update_merges:
  assumes "dict_update (JDict old) (Inr (JDict new)) = Inr m" and "distinct (map fst new)"
  shows "\<exists>kvs. m = JDict kvs \<and> map_of kvs = map_of old ++ map_of new"
  using assms by (auto simp: map_of_fold_update)

subsection \<open>Programs that only read\<close>

lemma readonly_basic:
  "readonly (ret x)" "readonly (throw e)" "readonly (lift r)" "readonly (attr g)"
  by (simp_all add: readonly_def ret_def throw_def lift_def attr_def)

lemma readonly_seq:
  assumes "readonly m" "\<And>x. readonly (f x)"
  shows "readonly (seq m f)"
  unfolding readonly_def
proof
  fix w
  from assms(1) have m: "snd (m w) = w" by (simp add: readonly_def)
  show "snd (seq m f w) = w"
  proof (cases "fst (m w)")
    case (Inl e)
    with m show ?thesis by (cases "m w") (simp add: seq_def)
  next
    case (Inr x)
    from assms(2)[of x] have "snd (f x w) = w" by (simp add: readonly_def)
    with m Inr show ?thesis by (cases "m w") (simp add: seq_def)
  qed
qed

lemma readonly_attempt:
  assumes "readonly m" "\<And>e. readonly (h e)"
  shows "readonly (attempt m h)"
  unfolding readonly_def
proof
  fix w
  from assms(1) have m: "snd (m w) = w" by (simp add: readonly_def)
  show "snd (attempt m h w) = w"
  proof (cases "fst (m w)")
    case (Inl e)
    from assms(2)[of e] have "snd (h e w) = w" by (simp add: readonly_def)
    with m Inl show ?thesis by (cases "m w") (simp add: attempt_def)
  next
    case (Inr x)
    with m show ?thesis by (cases "m w") (simp add: attempt_def)
  qed
qed

lemma readonly_except_KeyError:
  assumes "readonly m" "readonly h"
  shows "readonly (except_KeyError m h)"
  unfolding except_KeyError_def
  by (rule readonly_attempt[OF assms(1)]) (simp add: assms(2) readonly_basic split: error.splits)

lemma readonly_if: "readonly m1 \<Longrightarrow> readonly m2 \<Longrightarrow> readonly (if b then m1 else m2)"
  by simp

section \<open>Looking a dataset up\<close>

lemma dataset_of_getitem:
  "dataset_of d = Some cs \<Longrightarrow> getitem d (Some ''dataset'') = Inr (JDict cs)"
  by (auto simp: dataset_of_def split: json.splits option.splits)

lemma wf_dataset_of: "wf_registry d \<Longrightarrow> \<exists>cs. dataset_of d = Some cs"
  by (auto simp: wf_registry_def split: option.splits)

lemma category_loop_find:
  assumes "dataset_of d = Some cs"
    and "\<forall>k\<in>set ks. \<exists>ns. map_of cs k = Some (JDict ns)"
  shows "category_loop d name ks = Inr (List.find (holds cs name) ks)"
  using assms(2)
proof (induction ks)
  case Nil
  show ?case by simp
next
  case (Cons k ks)
  then obtain ns where ns: "map_of cs k = Some (JDict ns)" by auto
  from Cons have IH: "category_loop d name ks = Inr (List.find (holds cs name) ks)" by simp
  have h: "holds cs name k \<longleftrightarrow> name \<in> set (map fst ns)"
    using ns by (simp add: holds_def)
  show ?case
    using ns IH h by (simp add: dataset_of_getitem[OF assms(1)])
qed

lemma wf_values:
  assumes "wf_registry d" "dataset_of d = Some cs" "k \<in> set (map fst cs)"
  shows "\<exists>ns. map_of cs k = Some (JDict ns) \<and> distinct (map fst ns)"
proof -
  from assms(3) obtain v where kv: "(k, v) \<in> set cs" by auto
  from assms(1,2) have d: "distinct (map fst cs)" and a: "list_all (\<lambda>cv. is_dict (snd cv)) cs"
    by (auto simp: wf_registry_def)
  from d kv have m: "map_of cs k = Some v" by simp
  from a kv have "is_dict v" by (auto simp: list_all_iff)
  then obtain ns where "v = JDict ns" "distinct (map fst ns)" by (cases v) auto
  with m show ?thesis by simp
qed

text \<open>In a well-formed registry \<^verbatim>\<open>get_category\<close> returns the first category, in the
  order of the document, that has the name.\<close>

lemma category_result_wf:
  assumes "wf_registry d" "dataset_of d = Some cs"
  shows "category_result d name = Inr (List.find (holds cs name) (map fst cs))"
proof -
  have "\<forall>k\<in>set (map fst cs). \<exists>ns. map_of cs k = Some (JDict ns)"
    using wf_values[OF assms] by blast
  from category_loop_find[OF assms(2) this]
  show ?thesis by (simp add: category_result_def dataset_of_getitem[OF assms(2)])
qed

lemma registered_iff_find:
  assumes "wf_registry d" "dataset_of d = Some cs"
  shows "registered d name \<longleftrightarrow> List.find (holds cs name) (map fst cs) \<noteq> None"
proof -
  have "registered d name \<longleftrightarrow> (\<exists>cv\<in>set cs. name \<in> fst ` set (entries (snd cv)))"
    using assms(2) by (simp add: registered_def all_names_def)
  also have "\<dots> \<longleftrightarrow> (\<exists>(c, v)\<in>set cs. name \<in> fst ` set (entries v))"
    by (simp add: case_prod_unfold)
  also have "\<dots> \<longleftrightarrow> (\<exists>c\<in>set (map fst cs). holds cs name c)"
  proof
    assume "\<exists>(c, v)\<in>set cs. name \<in> fst ` set (entries v)"
    then obtain c v where cv: "(c, v) \<in> set cs" "name \<in> fst ` set (entries v)" by auto
    then have "c \<in> set (map fst cs)" by force
    from wf_values[OF assms this] obtain ns where ns: "map_of cs c = Some (JDict ns)" by auto
    from assms have "distinct (map fst cs)" by (simp add: wf_registry_def)
    with cv(1) have "map_of cs c = Some v" by simp
    with ns cv(2) have "holds cs name c" by (simp add: holds_def)
    with \<open>c \<in> set (map fst cs)\<close> show "\<exists>c\<in>set (map fst cs). holds cs name c" by blast
  next
    assume "\<exists>c\<in>set (map fst cs). holds cs name c"
    then obtain c where c: "c \<in> set (map fst cs)" "holds cs name c" by auto
    then obtain ns where ns: "map_of cs c = Some (JDict ns)" "name \<in> fst ` set ns"
      by (auto simp: holds_def split: option.splits json.splits)
    then have "(c, JDict ns) \<in> set cs" by (auto dest: map_of_SomeD)
    with ns(2) show "\<exists>(c, v)\<in>set cs. name \<in> fst ` set (entries v)" by force
  qed
  also have "\<dots> \<longleftrightarrow> List.find (holds cs name) (map fst cs) \<noteq> None"
    by (auto simp: find_None_iff)
  finally show ?thesis .
qed

lemma category_result_unregistered:
  assumes "wf_registry d" "\<not> registered d name"
  shows "category_result d name = Inr None"
proof -
  from wf_dataset_of[OF assms(1)] obtain cs where cs: "dataset_of d = Some cs" ..
  from registered_iff_find[OF assms(1) cs] assms(2)
  show ?thesis by (simp add: category_result_wf[OF assms(1) cs])
qed


lemma get_category_pure: "get_category name w = (category_result (data (self w)) name, w)"
  by (simp add: get_category_def category_result_def prog_defs)

lemma seq_get_category:
  "seq (get_category name) f w =
     (case category_result (data (self w)) name of Inl e \<Rightarrow> (Inl e, w) | Inr c \<Rightarrow> f c w)"
  by (simp add: seq_def get_category_pure split: sum.splits)

lemma category_dict_pure:
  "category_dict name w =
     (rbind (getitem (data (self w)) (Some ''dataset'')) (\<lambda>ds.
      rbind (category_result (data (self w)) name) (\<lambda>c. getitem ds c)), w)"
  by (simp add: category_dict_def get_category_pure prog_defs rbind_case split: sum.splits)

lemma dataset_entry_pure:
  "dataset_entry name w =
     (rbind (getitem (data (self w)) (Some ''dataset'')) (\<lambda>ds.
      rbind (category_result (data (self w)) name) (\<lambda>c.
      rbind (getitem ds c) (\<lambda>dc. getitem dc (Some name)))), w)"
  by (simp add: dataset_entry_def category_dict_pure prog_defs rbind_case split: sum.splits)

lemma seq_dataset_entry:
  "seq (dataset_entry name) f w =
     (case fst (dataset_entry name w) of Inl e \<Rightarrow> (Inl e, w) | Inr r \<Rightarrow> f r w)"
  by (simp add: seq_def dataset_entry_pure split: sum.splits)

lemma dataset_entry_unregistered:
  assumes "wf_registry (data (self w))" "\<not> registered (data (self w)) name"
  shows "dataset_entry name w = (Inl (KeyError None), w)"
proof -
  from assms(1) obtain cs where cs: "dataset_of (data (self w)) = Some cs"
    by (auto simp: wf_registry_def split: option.splits)
  from registered_iff_find[OF assms(1) cs] assms(2)
  have "category_result (data (self w)) name = Inr None"
    by (simp add: category_result_wf[OF assms(1) cs])
  then show ?thesis
    by (simp add: dataset_entry_pure dataset_of_getitem[OF cs])
qed

lemma dataset_entry_registered:
  assumes "wf_registry (data (self w))" "registered (data (self w)) name"
  shows "\<exists>c r. category_result (data (self w)) name = Inr (Some c) \<and>
           record_in (data (self w)) c name = Some r \<and> dataset_entry name w = (Inr r, w)"
proof -
  from assms(1) obtain cs where cs: "dataset_of (data (self w)) = Some cs"
    by (auto simp: wf_registry_def split: option.splits)
  from registered_iff_find[OF assms(1) cs] assms(2)
  obtain c where c: "List.find (holds cs name) (map fst cs) = Some c" by auto
  then have h: "holds cs name c" by (auto simp: find_Some_iff)
  then obtain ns where ns: "map_of cs c = Some (JDict ns)" "name \<in> fst ` set ns"
    by (auto simp: holds_def split: option.splits json.splits)
  then obtain r where r: "map_of ns name = Some r"
    by (cases "map_of ns name") (auto simp: map_of_eq_None_iff)
  have cr: "category_result (data (self w)) name = Inr (Some c)"
    by (simp add: category_result_wf[OF assms(1) cs] c)
  have "record_in (data (self w)) c name = Some r"
    by (simp add: record_in_def cs ns r)
  moreover have "dataset_entry name w = (Inr r, w)"
    by (simp add: dataset_entry_pure dataset_of_getitem[OF cs] cr ns r)
  ultimately show ?thesis using cr by blast
qed

lemma record_inD:
  assumes "record_in d c name = Some r"
  shows "\<exists>top cs ns. d = JDict top \<and> map_of top ''dataset'' = Some (JDict cs) \<and>
           dataset_of d = Some cs \<and> map_of cs c = Some (JDict ns) \<and> map_of ns name = Some r"
  using assms
  by (auto simp: record_in_def dataset_of_def split: option.splits json.splits)

lemma exists_dataset_unregistered:
  assumes "wf_registry (data (self w))" "\<not> registered (data (self w)) name"
  shows "exists_dataset name w = (Inr False, w)"
proof -
  from wf_dataset_of[OF assms(1)] obtain cs where cs: "dataset_of (data (self w)) = Some cs" ..
  show ?thesis
    by (simp add: exists_dataset_def category_dict_pure prog_defs
        category_result_unregistered[OF assms] dataset_of_getitem[OF cs])
qed

lemma exists_dataset_registered:
  assumes "category_result (data (self w)) name = Inr (Some c)"
    and "record_in (data (self w)) c name = Some r"
  shows "exists_dataset name w = (Inr True, w)"
proof -
  from record_inD[OF assms(2)] obtain top cs ns where
    d: "data (self w) = JDict top" "map_of top ''dataset'' = Some (JDict cs)"
       "map_of cs c = Some (JDict ns)" "map_of ns name = Some r"
    by blast
  show ?thesis using d assms(1)
    by (simp add: exists_dataset_def category_dict_pure prog_defs)
qed

lemma get_data_from_field_registered:
  assumes "category_result (data (self w)) name = Inr (Some c)"
    and "record_in (data (self w)) c name = Some r"
  shows "get_data_from_field name field w = (getitem r (Some field), w)"
proof -
  from record_inD[OF assms(2)] obtain top cs ns where
    d: "data (self w) = JDict top" "map_of top ''dataset'' = Some (JDict cs)"
       "map_of cs c = Some (JDict ns)" "map_of ns name = Some r"
    by blast
  have e: "fst (dataset_entry name w) = Inr r"
    using d assms(1) by (simp add: dataset_entry_pure)
  show ?thesis using e
    by (simp add: get_data_from_field_def seq_dataset_entry lift_def)
qed

lemma readonly_get_category: "readonly (get_category name)"
  by (simp add: readonly_def get_category_pure)

lemma readonly_category_dict: "readonly (category_dict name)"
  by (simp add: readonly_def category_dict_pure)

lemma readonly_dataset_entry: "readonly (dataset_entry name)"
  by (simp add: readonly_def dataset_entry_pure)

lemma readonly_exists_dataset: "readonly (exists_dataset name)"
  unfolding exists_dataset_def
  by (intro readonly_except_KeyError readonly_seq readonly_category_dict readonly_basic)

lemma readonly_get_data_from_field: "readonly (get_data_from_field name field)"
  unfolding get_data_from_field_def
  by (intro readonly_seq readonly_dataset_entry readonly_basic)

lemma readonly_get_dataset_storage_paths: "readonly (get_dataset_storage_paths name)"
  unfolding get_dataset_storage_paths_def
  by (intro readonly_seq readonly_if readonly_exists_dataset readonly_get_data_from_field
      readonly_basic)

lemma wf_mnist_data: "wf_registry mnist_data"
  by (simp add: wf_registry_def dataset_of_def mnist_data_def)

lemma names_mnist_data: "all_names mnist_data = [''mnist'']"
  by (simp add: all_names_def dataset_of_def mnist_data_def mnist_record_def)

subsection \<open>Fetching a record\<close>

text \<open>
  C4. In a well-formed registry, \<^verbatim>\<open>get_dataset_data\<close> returns the record of a registered
  name without raising and leaves the world as it is; for a name with no record it raises
  the exception whose message names the dataset,
  \<open>Dataset <name> does not exist in the cache file.\<close>, and returns no sentinel.
\<close>

theorem get_dataset_data_total:
  assumes "wf_registry (data (self w))"
  shows "if registered (data (self w)) name
         then \<exists>c r. record_in (data (self w)) c name = Some r \<and> get_dataset_data name w = (Inr r, w)
         else get_dataset_data name w =
                (Inl (Exception (''Dataset '' @ name @ '' does not exist in the cache file.'')), w)"
proof (cases "registered (data (self w)) name")
  case True
  from dataset_entry_registered[OF assms True] obtain c r where
    "record_in (data (self w)) c name = Some r" "dataset_entry name w = (Inr r, w)" by blast
  then show ?thesis using True
    by (auto simp: get_dataset_data_def prog_defs)
next
  case False
  from dataset_entry_unregistered[OF assms False] show ?thesis using False
    by (simp add: get_dataset_data_def prog_defs)
qed

text \<open>In \<open>world1\<close> the name \<open>cifar\<close> has no record and \<open>mnist\<close> has one.\<close>

theorem get_dataset_data_total_witness:
  "get_dataset_data ''cifar'' world1 =
     (Inl (Exception ''Dataset cifar does not exist in the cache file.''), world1) \<and>
   (\<exists>c r. record_in (data (self world1)) c ''mnist'' = Some r \<and>
          get_dataset_data ''mnist'' world1 = (Inr r, world1))"
proof -
  have wf: "wf_registry (data (self world1))"
    by (simp add: world1_def home_disk_def wf_mnist_data)
  have n: "\<not> registered (data (self world1)) ''cifar''"
    and y: "registered (data (self world1)) ''mnist''"
    by (simp_all add: world1_def home_disk_def registered_def names_mnist_data)
  show ?thesis
    using get_dataset_data_total[OF wf, of "''cifar''"] get_dataset_data_total[OF wf, of "''mnist''"] n y
    by simp
qed

section \<open>Adding and updating records\<close>

text \<open>Every exception of \<^verbatim>\<open>add_data\<close> is raised before its first assignment.\<close>

lemma add_data_error_unchanged:
  assumes "fst (add_data category name info w) = Inl e"
  shows "add_data category name info w = (Inl e, w)"
proof (cases "getitem (data (self w)) (Some ''dataset'')")
  case (Inl e1)
  then show ?thesis using assms by (simp add: add_data_def step)
next
  case ds: (Inr ds)
  show ?thesis
  proof (cases "py_keys ds")
    case (Inl e2)
    then show ?thesis using assms ds by (simp add: add_data_def step)
  next
    case cs: (Inr cs)
    then obtain kvs where kvs: "ds = JDict kvs" "cs = map fst kvs"
      by (auto dest: py_keys_Inr_dict)
    from ds obtain top where top: "data (self w) = JDict top" "map_of top ''dataset'' = Some (JDict kvs)"
      using kvs by (cases "data (self w)") (auto split: option.splits)
    show ?thesis
    proof (cases "category \<in> set cs")
      case False
      then have "map_of kvs category = None" using kvs by (simp add: map_of_eq_None_iff)
      then show ?thesis using assms ds cs False kvs top
        by (simp add: add_data_def step update_conv')
    next
      case True
      then obtain dc where dc: "map_of kvs category = Some dc"
        using kvs by (cases "map_of kvs category") (auto simp: map_of_eq_None_iff)
      show ?thesis
      proof (cases "py_keys dc")
        case (Inl e3)
        then show ?thesis using assms ds cs True kvs dc by (simp add: add_data_def step)
      next
        case ns: (Inr ns)
        then obtain nvs where nvs: "dc = JDict nvs" "ns = map fst nvs"
          by (auto dest: py_keys_Inr_dict)
        show ?thesis
        proof (cases "name \<in> set ns")
          case False
          then show ?thesis using assms ds cs True kvs dc ns nvs top
            by (simp add: add_data_def step update_conv')
        next
          case nT: True
          then obtain old where old: "map_of nvs name = Some old"
            using nvs by (cases "map_of nvs name") (auto simp: map_of_eq_None_iff)
          show ?thesis
          proof (cases "getitem old (Some ''cached_files'')")
            case (Inl e4)
            then show ?thesis using assms ds cs True kvs dc ns nvs nT old
              by (simp add: add_data_def step)
          next
            case cf: (Inr cf)
            show ?thesis
            proof (cases "dict_update cf (getitem info (Some ''cached_files''))")
              case (Inl e5)
              then show ?thesis using assms ds cs True kvs dc ns nvs nT old cf
                by (simp add: add_data_def step)
            next
              case m: (Inr m)
              then obtain y where "getitem info (Some ''cached_files'') = Inr y"
                by (auto dest: dict_update_Inr)
              then obtain ivs where ivs: "info = JDict ivs" by (auto dest: getitem_Inr_dict)
              from cf obtain ovs where ovs: "old = JDict ovs" "map_of ovs ''cached_files'' = Some cf"
                by (cases old) (auto split: option.splits)
              have False using assms ds cs True kvs dc ns nvs nT old cf m ivs top ovs
                by (simp add: add_data_def step update_conv')
              then show ?thesis ..
            qed
          qed
        qed
      qed
    qed
  qed
qed

lemma update_unfold:
  "update dumps name category dd cd ci w =
     (case add_data category name
             (JDict [(''data_dir'', dd), (''cache_dir'', cd), (''cache_files'', ci)]) w of
        (Inl e, w') \<Rightarrow> (Inl e, w')
      | (Inr u, w') \<Rightarrow> open_write (cache_fname (self w')) (dumps (data (self w'))) w')"
  by (simp add: update_def seq_def attr_def write_data_cache_apply split: prod.splits sum.splits)

text \<open>
  C10. If \<^verbatim>\<open>add_data\<close>, called from \<^verbatim>\<open>update\<close>, raises an error, then \<^verbatim>\<open>update\<close> raises
  the same error and leaves the world as it was: the document in memory is unchanged and
  the registry file is not rewritten.
\<close>

theorem update_atomic_on_merge_error:
  assumes "fst (add_data category name
             (JDict [(''data_dir'', dd), (''cache_dir'', cd), (''cache_files'', ci)]) w) = Inl e"
  shows "update dumps name category dd cd ci w = (Inl e, w)"
  using add_data_error_unchanged[OF assms] by (simp add: update_unfold)

text \<open>In \<open>world1\<close> the dataset \<open>mnist\<close> is there already; updating it raises and changes
  nothing.\<close>

theorem update_atomic_on_merge_error_witness:
  "update sample_dumps ''mnist'' ''image'' (JStr ''/d2'') (JStr ''/c2'') (JDict []) world1 =
     (Inl (KeyError (Some ''cached_files'')), world1)"
proof -
  have "fst (add_data ''image'' ''mnist''
          (JDict [(''data_dir'', JStr ''/d2''), (''cache_dir'', JStr ''/c2''),
                  (''cache_files'', JDict [])]) world1) = Inl (KeyError (Some ''cached_files''))"
    by (simp add: add_data_def step world1_def home_disk_def mnist_data_def mnist_record_def)
  from update_atomic_on_merge_error[OF this] show ?thesis .
qed

subsection \<open>The key of the task files\<close>

text \<open>
  \<^verbatim>\<open>update\<close> stores the task files of a dataset under the key \<^verbatim>\<open>cache_files\<close>, the key
  that \<^verbatim>\<open>exists\<close> and \<^verbatim>\<open>get_cache_path\<close> read; the merge in \<^verbatim>\<open>add_data\<close> reads the key
  \<^verbatim>\<open>cached_files\<close> from the old record and from the new one. So the merge is never
  reached from \<^verbatim>\<open>update\<close>: whenever the dataset is there already, \<^verbatim>\<open>update\<close> raises.
\<close>

lemma update_existing_record_raises:
  assumes "getitem (data (self w)) (Some ''dataset'') = Inr ds"
    and "getitem ds (Some category) = Inr dc"
    and "py_keys dc = Inr ns" and "name \<in> set ns"
  shows "\<exists>e. update dumps name category dd cd ci w = (Inl e, w) \<and>
             e \<in> {KeyError (Some ''cached_files''), TypeError, AttributeError}"
proof -
  let ?info = "JDict [(''data_dir'', dd), (''cache_dir'', cd), (''cache_files'', ci)]"
  from assms(2) obtain kvs where kvs: "ds = JDict kvs" by (auto dest: getitem_Inr_dict)
  with assms(2) have cat: "category \<in> set (map fst kvs)"
    by (auto split: option.splits dest: map_of_SomeD intro: rev_image_eqI)
  from assms(3) obtain nvs where nvs: "dc = JDict nvs" "ns = map fst nvs"
    by (auto dest: py_keys_Inr_dict)
  from assms(4) nvs obtain old where old: "map_of nvs name = Some old"
    by (cases "map_of nvs name") (auto simp: map_of_eq_None_iff)
  have new: "getitem ?info (Some ''cached_files'') = Inl (KeyError (Some ''cached_files''))"
    by simp
  have "\<exists>e. fst (add_data category name ?info w) = Inl e \<and>
             e \<in> {KeyError (Some ''cached_files''), TypeError, AttributeError}"
  proof (cases "getitem old (Some ''cached_files'')")
    case (Inl e4)
    then have "e4 \<in> {KeyError (Some ''cached_files''), TypeError}"
      by (cases old) (auto split: option.splits)
    then show ?thesis using assms kvs cat nvs old Inl
      by (auto simp add: add_data_def step)
  next
    case (Inr cf)
    have "dict_update cf (Inl (KeyError (Some ''cached_files'')) :: error + json) \<in>
            {Inl (KeyError (Some ''cached_files'')), Inl AttributeError}"
      by (cases cf) auto
    then show ?thesis using assms kvs cat nvs old Inr
      by (auto simp add: add_data_def step)
  qed
  then obtain e where e: "fst (add_data category name ?info w) = Inl e"
    "e \<in> {KeyError (Some ''cached_files''), TypeError, AttributeError}" by blast
  from add_data_error_unchanged[OF e(1)] e(2) show ?thesis by (simp add: update_unfold)
qed

text \<open>With the key of \<^verbatim>\<open>add_data\<close> on both sides, the merge does what its comment says:
  the old tasks stay, the new ones are added, and a task of both takes the new path.\<close>

lemma add_data_merges_cached_files:
  "add_data ''image'' ''mnist''
     (JDict [(''cached_files'', JDict [(''val'', JStr ''/c/v2.bin''), (''test'', JStr ''/c/test.bin'')])])
     world_cached =
   (Inr (), world_cached\<lparr>self := (self world_cached)\<lparr>data :=
      JDict [(''info'', JDict []),
             (''dataset'', JDict [(''image'', JDict [(''mnist'',
                JDict [(''cached_files'', JDict [(''train'', JStr ''/c/train.bin''),
                                                 (''val'', JStr ''/c/v2.bin''),
                                                 (''test'', JStr ''/c/test.bin'')])])])])]\<rparr>\<rparr>)"
  by (simp add: add_data_def step world_cached_def home_disk_def cached_record_def sample_self_def)

lemma first_update_world0:
  "fst (first_update world0) = Inr () \<and>
   data (self (snd (first_update world0))) =
     JDict [(''info'', JDict [(''default_cache_dir'', JStr ''/home/u/dbcollection''),
                              (''default_data_dir'', JStr ''/home/u/dbcollection'')]),
            (''dataset'', JDict [(''cat'', JDict [(''m'',
               JDict [(''data_dir'', JStr ''/d''), (''cache_dir'', JStr ''/c''),
                      (''cache_files'', JDict [(''train'', JStr ''/c/train.bin'')])])])])]"
  by (simp add: first_update_def update_unfold add_data_def step open_write_apply world0_def home_disk_def sample_self_def)

lemma first_update_cache_path:
  "fst (get_cache_path ''m'' ''train'' (snd (first_update world0))) = Inr (JStr ''/c/train.bin'') \<and>
   fst (exists ''m'' ''train'' (snd (first_update world0))) = Inr True"
  by (simp add: first_update_def update_unfold add_data_def step open_write_apply world0_def home_disk_def
      sample_self_def get_cache_path_def get_dataset_data_def exists_def except_KeyError_def
      attempt_def dataset_entry_def category_dict_def get_category_def seq_def lift_def attr_def)

text \<open>
  C1. The example of the specification, run on the code: in a registry with no datasets,
  \<^verbatim>\<open>update('m', 'cat', '/d', '/c', {'train': '/c/train.bin'})\<close> succeeds, and the second
  call \<^verbatim>\<open>update('m', 'cat', '/d', '/c', {'test': '/c/test.bin'})\<close> raises
  \<^verbatim>\<open>KeyError('cached_files')\<close> and leaves the world as the first call left it, where the
  merge law asks for the task files of both calls.
\<close>

theorem update_twice_raises:
  "fst (first_update world0) = Inr () \<and>
   second_update (snd (first_update world0)) =
     (Inl (KeyError (Some ''cached_files'')), snd (first_update world0))"
  by (simp add: first_update_def second_update_def update_unfold add_data_def step open_write_apply world0_def home_disk_def sample_self_def)

subsection \<open>A dataset that is new\<close>













section \<open>Changing a field\<close>

lemma change_field_disk: "disk (snd (change_field name field val w)) = disk w"
  by (simp add: change_field_def seq_get_category step split: sum.splits option.splits)

lemma change_field_self:
  "\<exists>d. self (snd (change_field name field val w)) = (self w)\<lparr>data := d\<rparr>"
  apply (simp add: change_field_def seq_get_category step split: sum.splits option.splits)
  apply (auto intro: exI[of _ "data (self w)"])
  done

lemma update_success_persists:
  assumes "update dumps name category dd cd ci w = (Inr (), w')"
  shows "disk w' (cache_fname (self w')) = Some (File (dumps (data (self w'))))"
  using assms
  by (auto simp: update_unfold open_write_apply split: prod.splits sum.splits option.splits node.splits)

text \<open>
  C9. \<^verbatim>\<open>change_field\<close> changes at most the document in memory: the disk is as it was, the
  other attributes of the manager are as they were, and the registry file reads as
  before. The change reaches the file with the next operation that persists: after a
  successful \<^verbatim>\<open>update\<close> the registry file holds the document in memory.
\<close>

theorem change_field_memory_only:
  "disk (snd (change_field name field val w)) = disk w \<and>
   (\<exists>d. self (snd (change_field name field val w)) = (self w)\<lparr>data := d\<rparr>) \<and>
   fst (read_data_cache loads (snd (change_field name field val w))) = fst (read_data_cache loads w) \<and>
   (update dumps n c dd cd ci (snd (change_field name field val w)) = (Inr (), w') \<longrightarrow>
      disk w' (cache_fname (self w')) = Some (File (dumps (data (self w')))))"
proof -
  obtain d where d: "self (snd (change_field name field val w)) = (self w)\<lparr>data := d\<rparr>"
    using change_field_self by blast
  have "fst (read_data_cache loads (snd (change_field name field val w))) = fst (read_data_cache loads w)"
    by (simp add: read_data_cache_def read_data_cache_file_def empty_data_def seq_def attr_def
        path_exists_def open_read_def lift_def ret_def change_field_disk d
        split: option.splits node.splits sum.splits)
  with d change_field_disk update_success_persists show ?thesis by blast
qed

text \<open>In \<open>world1\<close>, changing \<^verbatim>\<open>data_dir\<close> of \<open>mnist\<close> succeeds and changes the document,
  not the disk.\<close>

theorem change_field_memory_only_witness:
  "fst (change_field ''mnist'' ''data_dir'' (JStr ''/new'') world1) = Inr () \<and>
   data (self (snd (change_field ''mnist'' ''data_dir'' (JStr ''/new'') world1))) \<noteq> data (self world1) \<and>
   disk (snd (change_field ''mnist'' ''data_dir'' (JStr ''/new'') world1)) = disk world1"
proof -
  have "fst (change_field ''mnist'' ''data_dir'' (JStr ''/new'') world1) = Inr () \<and>
    data (self (snd (change_field ''mnist'' ''data_dir'' (JStr ''/new'') world1))) \<noteq> data (self world1)"
    by (simp add: change_field_def seq_get_category step category_result_def
        world1_def home_disk_def mnist_data_def mnist_record_def)
  with change_field_memory_only[of "''mnist''" "''data_dir''" "JStr ''/new''" world1]
  show ?thesis by simp
qed

section \<open>Storage paths\<close>

lemma storage_paths_unregistered:
  assumes "wf_registry (data (self w))" "\<not> registered (data (self w)) name"
  shows "get_dataset_storage_paths name w =
     (Inr (JDict [(''cache_dir'', JStr (path_join3 (default_cache_dir (self w)) name ''cache'')),
                  (''data_dir'', JStr (path_join3 (default_data_dir (self w)) name ''data''))]), w)"
  by (simp add: get_dataset_storage_paths_def seq_def exists_dataset_unregistered[OF assms]
      attr_def ret_def)

lemma split_acc_sep:
  "set (split_acc [] ys) \<subseteq> set (split_acc cur (xs @ CHR ''/'' # ys))"
  by (induction xs arbitrary: cur) auto

lemma split_acc_plain:
  "CHR ''/'' \<notin> set n \<Longrightarrow> split_acc cur (n @ CHR ''/'' # ys) = (cur @ n) # split_acc [] ys"
  by (induction n arbitrary: cur) auto

lemma endswith_sep_iff: "endswith_sep a \<longleftrightarrow> (\<exists>b. a = b @ ''/'')"
  by (cases a rule: rev_cases) (auto simp: endswith_sep_def)

lemma startswith_sep_iff: "startswith_sep a \<longleftrightarrow> (\<exists>b. a = CHR ''/'' # b)"
  by (cases a) (auto simp: startswith_sep_def)

lemma name_in_split_acc:
  assumes "CHR ''/'' \<notin> set name"
  shows "name \<in> set (split_acc [] (name @ CHR ''/'' # t))"
  by (simp add: split_acc_plain[OF assms])

lemma segment_of_join:
  assumes "name \<noteq> []" "CHR ''/'' \<notin> set name" "\<not> startswith_sep t"
  shows "prefix a (path_join3 a name t) \<and> name \<in> set (split_path (path_join3 a name t))"
proof -
  from assms have ns: "\<not> startswith_sep name"
    by (auto simp: startswith_sep_iff)
  have ne: "\<not> endswith_sep (x @ name)" for x
  proof
    assume "endswith_sep (x @ name)"
    then obtain b where b: "x @ name = b @ ''/''" by (auto simp: endswith_sep_iff)
    from assms(1) have "last (x @ name) = last name" by simp
    with b have "last name = CHR ''/''" by simp
    with assms(1,2) show False using last_in_set by metis
  qed
  show ?thesis
  proof (cases "a = [] \<or> endswith_sep a")
    case True
    then have j: "path_join3 a name t = a @ name @ CHR ''/'' # t"
      using ns ne[of a] assms(1,3) by (simp add: path_join3_def path_join_def)
    from True have "name \<in> set (split_acc [] (a @ name @ CHR ''/'' # t))"
    proof
      assume "a = []"
      then show ?thesis using name_in_split_acc[OF assms(2)] by simp
    next
      assume "endswith_sep a"
      then obtain b where b: "a = b @ ''/''" by (auto simp: endswith_sep_iff)
      show ?thesis
        using split_acc_sep[of "name @ CHR ''/'' # t" "[]" b] name_in_split_acc[OF assms(2), of t]
        by (auto simp: b)
    qed
    with j show ?thesis by (simp add: split_path_def)
  next
    case False
    then have j: "path_join3 a name t = a @ CHR ''/'' # name @ CHR ''/'' # t"
      using ns ne[of "a @ ''/''"] assms(1,3) by (simp add: path_join3_def path_join_def)
    have "name \<in> set (split_acc [] (a @ CHR ''/'' # name @ CHR ''/'' # t))"
      using split_acc_sep[of "name @ CHR ''/'' # t" "[]" a] name_in_split_acc[OF assms(2), of t]
      by auto
    with j show ?thesis by (simp add: split_path_def)
  qed
qed

lemma prefix_join3:
  assumes "\<not> startswith_sep name" "\<not> startswith_sep t"
  shows "prefix a (path_join3 a name t)"
  using assms by (simp add: path_join3_def path_join_def)

text \<open>
  C7, as the code has it. For a name that is not registered in a well-formed registry,
  \<^verbatim>\<open>get_dataset_storage_paths\<close> returns the default cache and data directories joined with
  the name and with \<open>cache\<close> and \<open>data\<close>, and leaves the manager and the disk as they
  are. The paths begin with the default directories when the name does not begin with
  \<open>/\<close>, and they have the name as a segment when the name is not empty and has no
  \<open>/\<close>.
\<close>

theorem storage_paths_default:
  assumes "wf_registry (data (self w))" and "\<not> registered (data (self w)) name"
  shows "get_dataset_storage_paths name w =
           (Inr (JDict
              [(''cache_dir'', JStr (path_join3 (default_cache_dir (self w)) name ''cache'')),
               (''data_dir'', JStr (path_join3 (default_data_dir (self w)) name ''data''))]), w) \<and>
         (\<not> startswith_sep name \<longrightarrow>
            prefix (default_cache_dir (self w)) (path_join3 (default_cache_dir (self w)) name ''cache'') \<and>
            prefix (default_data_dir (self w)) (path_join3 (default_data_dir (self w)) name ''data'')) \<and>
         (name \<noteq> [] \<and> CHR ''/'' \<notin> set name \<longrightarrow>
            name \<in> set (split_path (path_join3 (default_cache_dir (self w)) name ''cache'')) \<and>
            name \<in> set (split_path (path_join3 (default_data_dir (self w)) name ''data'')))"
proof -
  have c: "\<not> startswith_sep ''cache''" and d: "\<not> startswith_sep ''data''"
    by (simp_all add: startswith_sep_def)
  from segment_of_join[OF _ _ c] segment_of_join[OF _ _ d] prefix_join3[OF _ c] prefix_join3[OF _ d]
    storage_paths_unregistered[OF assms]
  show ?thesis by blast
qed

text \<open>C7 as stated fails for a name that is an absolute path: \<^verbatim>\<open>os.path.join\<close> drops the
  default directory, and the paths of \<open>/x\<close> are \<open>/x/cache\<close> and \<open>/x/data\<close>.\<close>

theorem storage_paths_absolute_name:
  "get_dataset_storage_paths ''/x'' world0 =
     (Inr (JDict [(''cache_dir'', JStr ''/x/cache''), (''data_dir'', JStr ''/x/data'')]), world0) \<and>
   default_cache_dir (self world0) = ''/home/u/dbcollection'' \<and>
   \<not> prefix ''/home/u/dbcollection'' ''/x/cache'' \<and>
   \<not> registered (data (self world0)) ''/x''"
proof -
  have wf: "wf_registry (data (self world0))"
    by (simp add: world0_def home_disk_def sample_self_def wf_registry_def dataset_of_def)
  have n: "\<not> registered (data (self world0)) ''/x''"
    by (simp add: world0_def home_disk_def sample_self_def registered_def all_names_def dataset_of_def)
  have "path_join3 ''/home/u/dbcollection'' ''/x'' ''cache'' = ''/x/cache''"
    "path_join3 ''/home/u/dbcollection'' ''/x'' ''data'' = ''/x/data''"
    by (simp_all add: path_join3_def path_join_def startswith_sep_def endswith_sep_def)
  with storage_paths_unregistered[OF wf n] n show ?thesis
    by (simp add: world0_def home_disk_def sample_self_def)
qed

theorem storage_paths_default_witness:
  "get_dataset_storage_paths ''mnist'' world0 =
     (Inr (JDict [(''cache_dir'', JStr ''/home/u/dbcollection/mnist/cache''),
                  (''data_dir'', JStr ''/home/u/dbcollection/mnist/data'')]), world0) \<and>
   prefix (default_cache_dir (self world0)) ''/home/u/dbcollection/mnist/cache'' \<and>
   ''mnist'' \<in> set (split_path ''/home/u/dbcollection/mnist/cache'') \<and>
   prefix (default_data_dir (self world0)) ''/home/u/dbcollection/mnist/data'' \<and>
   ''mnist'' \<in> set (split_path ''/home/u/dbcollection/mnist/data'')"
proof -
  have wf: "wf_registry (data (self world0))"
    by (simp add: world0_def home_disk_def sample_self_def wf_registry_def dataset_of_def)
  have n: "\<not> registered (data (self world0)) ''mnist''"
    by (simp add: world0_def home_disk_def sample_self_def registered_def all_names_def dataset_of_def)
  have j: "path_join3 (default_cache_dir (self world0)) ''mnist'' ''cache'' =
             ''/home/u/dbcollection/mnist/cache''"
    "path_join3 (default_data_dir (self world0)) ''mnist'' ''data'' =
             ''/home/u/dbcollection/mnist/data''"
    by (simp_all add: world0_def home_disk_def sample_self_def path_join3_def path_join_def startswith_sep_def
          endswith_sep_def)
  have s: "\<not> startswith_sep ''mnist''" "''mnist'' \<noteq> [] \<and> CHR ''/'' \<notin> set ''mnist''"
    by (simp_all add: startswith_sep_def)
  from storage_paths_default[OF wf n] s show ?thesis
    unfolding j by blast
qed

section \<open>Deleting a dataset\<close>

lemma delete_dataset_cache_unregistered:
  assumes "wf_registry (data (self w))" "\<not> registered (data (self w)) name"
  shows "delete_dataset_cache dumps name w = (Inl (KeyError None), w)"
  by (simp add: delete_dataset_cache_def seq_dataset_entry dataset_entry_unregistered[OF assms])

lemma delete_dataset_unregistered:
  assumes "wf_registry (data (self w))" "\<not> registered (data (self w)) name"
  shows "delete_dataset dumps name dd w = (Inl (KeyError None), w)"
  by (simp add: delete_dataset_def seq_def storage_paths_unregistered[OF assms]
      delete_dataset_cache_unregistered[OF assms])

text \<open>The handler of \<^verbatim>\<open>os.remove\<close> turns the error \<open>ENOENT\<close> into a normal return and
  raises every other error again.\<close>

lemma except_ENOENT_cases:
  "except_ENOENT m w =
     (case m w of
        (Inl (OSError ENOENT), w') \<Rightarrow> (Inr (), w')
      | r \<Rightarrow> r)"
  by (auto simp: except_ENOENT_def attempt_def ret_def throw_def
      split: prod.splits sum.splits error.splits errno.splits)

text \<open>
  C2, as the code has it. In a well-formed registry, \<^verbatim>\<open>delete_dataset\<close> of a name that is
  not registered, or no longer registered, raises \<^verbatim>\<open>KeyError(None)\<close>, the failed lookup of
  the category \<^verbatim>\<open>None\<close> in \<^verbatim>\<open>delete_dataset_cache\<close>, and leaves the manager and the disk
  as they are, whatever \<^verbatim>\<open>delete_data\<close> is: this case is not swallowed.
\<close>

theorem delete_dataset_not_found:
  assumes "wf_registry (data (self w))" and "\<not> registered (data (self w)) name"
  shows "delete_dataset dumps name delete_data w = (Inl (KeyError None), w)"
  using delete_dataset_unregistered[OF assms] .

text \<open>C2 as stated fails: deleting \<open>mnist\<close> from \<open>world1\<close> succeeds, and deleting it
  again raises.\<close>

theorem delete_twice_raises:
  "fst (delete_dataset sample_dumps ''mnist'' False world1) = Inr () \<and>
   fst (delete_dataset sample_dumps ''mnist'' False
          (snd (delete_dataset sample_dumps ''mnist'' False world1))) = Inl (KeyError None)"
  by (simp add: delete_dataset_def delete_dataset_cache_def get_dataset_storage_paths_def
      get_data_from_field_def exists_dataset_def dataset_entry_def category_dict_def
      get_category_def except_KeyError_def except_ENOENT_def os_remove_def attempt_def
      write_data_cache_apply open_write_apply ret_def throw_def lift_def seq_def attr_def
      set_data_def world1_def home_disk_def mnist_data_def mnist_record_def sample_self_def)

text \<open>In \<open>world1\<close> the name \<open>cifar\<close> is not registered.\<close>

theorem delete_dataset_not_found_witness:
  "delete_dataset sample_dumps ''cifar'' True world1 = (Inl (KeyError None), world1)"
proof -
  have wf: "wf_registry (data (self world1))"
    by (simp add: world1_def home_disk_def wf_mnist_data)
  have n: "\<not> registered (data (self world1)) ''cifar''"
    by (simp add: world1_def home_disk_def registered_def names_mnist_data)
  from delete_dataset_not_found[OF wf n] show ?thesis .
qed

section \<open>Persisting and loading\<close>

text \<open>
  What the manager adds to the codec: \<^verbatim>\<open>write_data_cache\<close> without a file name writes the
  text of the document to the registry file, and \<^verbatim>\<open>read_data_cache\<close> afterwards decodes
  this text. Whether the decoded document is the one that was written is a property of
  \<^verbatim>\<open>json.dump\<close>, \<^verbatim>\<open>json.load\<close> and the encoding of the file, not of the manager.
\<close>

lemma persist_then_load:
  assumes "write_data_cache dumps d None w = (Inr (), w')"
  shows "disk w' (cache_fname (self w')) = Some (File (dumps d)) \<and>
         read_data_cache loads w' = (loads (dumps d), w')"
  using assms
  by (auto simp: read_data_cache_def read_data_cache_file_def write_data_cache_def
      seq_def attr_def path_exists_def open_read_def open_write_def lift_def
      split: option.splits node.splits if_splits)

section \<open>Properties of the dataset loader\<close>

text \<open>A row built by the iteration over the fields has one value for each field name: the value of the
  field's array at the id that the object's id vector has in the field's position.\<close>

lemma fields_loop_sound:
  "fields_loop fancy f dir ids i0 fs = Inr t \<Longrightarrow>
     length t = length fs \<and>
     (\<forall>k < length fs. \<exists>ds key. h5_getitem f (dir @ fs ! k) = Inr ds \<and>
        row_index ids (i0 + k) = Inr key \<and> dataset_getitem fancy ds key = Inr (t ! k))"
proof (induction fs arbitrary: i0 t)
  case Nil
  then show ?case by simp
next
  case (Cons a fs)
  from Cons.prems obtain ds key v vs where
    s: "h5_getitem f (dir @ a) = Inr ds" "row_index ids i0 = Inr key"
       "dataset_getitem fancy ds key = Inr v"
       "fields_loop fancy f dir ids (Suc i0) fs = Inr vs" "t = v # vs"
    by (auto simp: rbind_case split: sum.splits)
  from Cons.IH[OF s(4)] have IH: "length vs = length fs"
    "\<forall>k<length fs. \<exists>ds key. h5_getitem f (dir @ fs ! k) = Inr ds \<and>
        row_index ids (Suc i0 + k) = Inr key \<and> dataset_getitem fancy ds key = Inr (vs ! k)"
    by auto
  show ?case
  proof (intro conjI allI impI)
    show "length t = length (a # fs)" using s IH by simp
  next
    fix k assume k: "k < length (a # fs)"
    show "\<exists>ds key. h5_getitem f (dir @ (a # fs) ! k) = Inr ds \<and>
        row_index ids (i0 + k) = Inr key \<and> dataset_getitem fancy ds key = Inr (t ! k)"
    proof (cases k)
      case 0
      then show ?thesis using s by simp
    next
      case (Suc k')
      with k IH(2) s(5) show ?thesis by simp
    qed
  qed
qed

lemma object_row_sound:
  assumes "object_row fancy f dir fs i = Inr t"
  shows "\<exists>ds ids. h5_getitem f (dir @ ''object_ids'') = Inr ds \<and>
           dataset_getitem fancy ds (HInt i) = Inr ids \<and> length t = length fs \<and>
           (\<forall>k < length fs. \<exists>fd key. h5_getitem f (dir @ fs ! k) = Inr fd \<and>
              row_index ids k = Inr key \<and> dataset_getitem fancy fd key = Inr (t ! k))"
proof -
  from assms obtain ds ids where
    s: "h5_getitem f (dir @ ''object_ids'') = Inr ds" "dataset_getitem fancy ds (HInt i) = Inr ids"
       "fields_loop fancy f dir ids 0 fs = Inr t"
    by (auto simp: object_row_def rbind_case split: sum.splits)
  from fields_loop_sound[OF s(3)] s(1,2) show ?thesis by auto
qed

text \<open>
  C8. When \<open>train\<close> is not among the top-level names of the container, the constructor
  succeeds and never assigns \<^verbatim>\<open>object_fields\<close>; then \<^verbatim>\<open>object_field_id\<close> fails with
  \<open>AttributeError\<close> for every field name, not with the \<open>ValueError\<close> of its
  documentation, and so does \<^verbatim>\<open>object\<close> with \<^verbatim>\<open>is_value=True\<close> for every set and index.
\<close>

theorem no_train_no_object_fields:
  assumes "h5open cpath = Inr f" and "h5_keys f = Inr ks" and "''train'' \<notin> set ks"
  shows "\<exists>ld. loader_init h5open convert name task ddir cpath = Inr ld \<and>
           object_fields ld = None \<and>
           (\<forall>field_name. object_field_id ld field_name = Inl AttributeError) \<and>
           (\<forall>set_name idx. object fancy ld set_name idx True = Inl AttributeError)"
  using assms by (simp add: loader_init_def object_field_id_def object_def Let_def)

text \<open>The sample container has the single top-level name \<open>default\<close>.\<close>

theorem no_train_no_object_fields_witness:
  "\<exists>ld. loader_init sample_h5open sample_convert ''mnist'' ''classification'' ''/d'' ''/c/train.h5''
          = Inr ld \<and>
        object_fields ld = None \<and>
        object_field_id ld ''id'' = Inl AttributeError \<and>
        object sample_fancy ld ''train'' (IdxList [0]) True = Inl AttributeError"
proof -
  have o: "sample_h5open ''/c/train.h5'' = Inr sample_container"
    by (simp add: sample_h5open_def)
  have k: "h5_keys sample_container = Inr [''default'']"
    by (simp add: sample_container_def)
  have t: "''train'' \<notin> set [''default'']" by simp
  from no_train_no_object_fields[where ?h5open = sample_h5open and cpath = "''/c/train.h5''"
      and f = sample_container and ks = "[''default'']" and convert = sample_convert
      and name = "''mnist''" and task = "''classification''" and ddir = "''/d''"
      and fancy = sample_fancy] o k t
  show ?thesis by blast
qed

text \<open>
  C6. With the field names set and the rows at the indices \<open>i\<close> and \<open>j\<close> built by the
  loop body, \<^verbatim>\<open>object\<close> with \<^verbatim>\<open>is_value=True\<close> returns for the list \<open>[i]\<close> the row
  itself, not a list of one row, and for the list \<open>[i, j]\<close> the list of the two rows in
  this order; each row has one value per field name.
\<close>

theorem object_single_or_sequence:
  assumes "object_fields ld = Some fs"
    and "object_row fancy (loader_file ld) (root_path ld @ set_name @ ''/'') fs i = Inr t"
    and "object_row fancy (loader_file ld) (root_path ld @ set_name @ ''/'') fs j = Inr u"
  shows "object fancy ld set_name (IdxList [i]) True = Inr (Tuple t) \<and>
         object fancy ld set_name (IdxList [i, j]) True = Inr (Tuples [t, u]) \<and>
         length t = length fs \<and> length u = length fs"
  using assms object_row_sound[OF assms(2)] object_row_sound[OF assms(3)]
  by (auto simp add: object_def Let_def)

theorem object_single_or_sequence_witness:
  "object sample_fancy sample_loader ''train'' (IdxList [0]) True =
     Inr (Tuple [HInt 10, HInt 3]) \<and>
   object sample_fancy sample_loader ''train'' (IdxList [0, 1]) True =
     Inr (Tuples [[HInt 10, HInt 3], [HInt 11, HInt 7]])"
proof -
  have f: "object_fields sample_loader = Some [''id'', ''lb'']"
    by (simp add: sample_loader_def)
  have r0: "object_row sample_fancy (loader_file sample_loader)
              (root_path sample_loader @ ''train'' @ ''/'') [''id'', ''lb''] 0 = Inr [HInt 10, HInt 3]"
    by (simp add: object_row_def sample_loader_def sample_container_def h5_getitem_def
        split_path_def)
  have r1: "object_row sample_fancy (loader_file sample_loader)
              (root_path sample_loader @ ''train'' @ ''/'') [''id'', ''lb''] 1 = Inr [HInt 11, HInt 7]"
    by (simp add: object_row_def sample_loader_def sample_container_def h5_getitem_def
        split_path_def)
  from object_single_or_sequence[OF f r0 r1] show ?thesis by simp
qed

end
